theory Spec2Isabelle
  imports Main "HOL-Library.Multiset"
begin

section \<open>Key extraction and aggregation (src/extractor/runner.ts)\<close>

subsection \<open>Data model\<close>

text \<open>
  A property key of \<open>FilteredKeys\<close> is either the unique symbol
  \<open>NullNamespace = Symbol('namespace.null')\<close> or a string.
\<close>

datatype Namespace = NullNamespace | Named string

text \<open>
  Modelled from the spec: the type \<open>ExtractedKey\<close> is declared in \<open>./index.js\<close>, which is
  not part of the sources at hand. The spec gives
  \<open>{ keyName: string, namespace?: string, defaultValue?: string, sourceLocation?: opaque }\<close>;
  an optional field that is \<open>undefined\<close> is \<open>None\<close>. The source location is never read by
  the runner and is left out.
\<close>

record ExtractedKey =
  keyName :: string
  namespace :: "string option"
  defaultValue :: "string option"

text \<open>
  Modelled from the spec: \<open>ExtractionResult\<close> (also from \<open>./index.js\<close>) is the per-file
  result; the runner reads only its field \<open>keys\<close>, the ordered sequence of keys.
\<close>

record ExtractionResult =
  keys :: "ExtractedKey list"

text \<open>What a rejected promise carries.\<close>

datatype error = Thrown string

text \<open>
  A JavaScript \<open>Map\<close> keeps its entries in insertion order, one entry per key. It is an
  association list; \<open>Map.prototype.set\<close> overwrites the value of a key that is present,
  leaving its position, and appends a new entry otherwise.
\<close>

fun Map_set :: "('k \<times> 'v) list \<Rightarrow> 'k \<Rightarrow> 'v \<Rightarrow> ('k \<times> 'v) list" where
  "Map_set [] k v = [(k, v)]"
| "Map_set ((k', v') # m) k v =
     (if k' = k then (k, v) # m else (k', v') # Map_set m k v)"

definition Map_values :: "('k \<times> 'v) list \<Rightarrow> 'v list" where
  "Map_values m = map snd m"

type_synonym ExtractionResults = "(string \<times> ExtractionResult) list"

text \<open>A bucket is a \<open>Map<string, string | null>\<close>; \<open>null\<close> is \<open>None\<close>.\<close>

type_synonym Bucket = "(string \<times> string option) list"

text \<open>
  \<open>FilteredKeys\<close> is an object without prototype (\<open>Object.create(null)\<close>), so \<open>in\<close>
  sees own properties only: a partial map from property keys to buckets.
\<close>

type_synonym FilteredKeys = "Namespace \<rightharpoonup> Bucket"

text \<open>
  JavaScript truthiness of a \<open>string | undefined\<close>: \<open>undefined\<close> and the empty string
  are falsy, every other string is truthy.
\<close>

definition truthy :: "string option \<Rightarrow> bool" where
  "truthy s = (case s of None \<Rightarrow> False | Some t \<Rightarrow> t \<noteq> [])"

subsection \<open>Extraction\<close>

text \<open>
  \<open>callWorker\<close> (from \<open>./worker.js\<close>) is a parameter: given the extractor and the file
  it resolves with the file's result or rejects.
\<close>

type_synonym Worker = "string option \<Rightarrow> string \<Rightarrow> error + ExtractionResult"

definition extractKeysFromFile :: "Worker \<Rightarrow> string \<Rightarrow> string option \<Rightarrow> error + ExtractionResult" where
  "extractKeysFromFile callWorker file extractor = callWorker extractor file"

text \<open>
  The body of the inner loop of \<open>extractKeysOfFiles\<close>:
  \<open>if (!key.namespace && defaultNamespace) key.namespace = defaultNamespace\<close>.
\<close>

definition applyDefaultNamespace :: "string option \<Rightarrow> ExtractedKey \<Rightarrow> ExtractedKey" where
  "applyDefaultNamespace defaultNamespace key =
     (if \<not> truthy (namespace key) \<and> truthy defaultNamespace
      then key\<lparr>namespace := defaultNamespace\<rparr> else key)"

text \<open>The loop \<open>for (const key of keys.keys)\<close> over one file's result.\<close>

definition rewriteNamespaces :: "string option \<Rightarrow> ExtractionResult \<Rightarrow> ExtractionResult" where
  "rewriteNamespaces defaultNamespace ks =
     ks\<lparr>keys := map (applyDefaultNamespace defaultNamespace) (keys ks)\<rparr>"

text \<open>
  The asynchronous callback mapped over the files, run when the file's worker settles:
  a rejection is passed on, a result has its keys rewritten and is stored under the file.
\<close>

definition fileTask ::
  "Worker \<Rightarrow> string option \<Rightarrow> string option \<Rightarrow> string \<Rightarrow> ExtractionResults
     \<Rightarrow> error + ExtractionResults" where
  "fileTask callWorker extractor defaultNamespace file result =
     (case extractKeysFromFile callWorker file extractor of
        Inl e \<Rightarrow> Inl e
      | Inr ks \<Rightarrow> Inr (Map_set result file (rewriteNamespaces defaultNamespace ks)))"

text \<open>
  \<open>Promise.all\<close> over the callbacks: it rejects with the first rejection and resolves
  once every callback has run. The callbacks run in the order in which the workers
  settle. The package \<open>glob\<close> and the scheduling of the workers are outside the runner,
  so what they decide is a parameter: the list \<open>files\<close> is the files that
  \<open>glob(filesPatterns, { nodir: true })\<close> matched, in the order in which their workers
  settle.
\<close>

fun settleAll ::
  "Worker \<Rightarrow> string option \<Rightarrow> string option \<Rightarrow> string list \<Rightarrow> ExtractionResults
     \<Rightarrow> error + ExtractionResults" where
  "settleAll callWorker extractor defaultNamespace [] result = Inr result"
| "settleAll callWorker extractor defaultNamespace (file # files) result =
     (case fileTask callWorker extractor defaultNamespace file result of
        Inl e \<Rightarrow> Inl e
      | Inr result' \<Rightarrow> settleAll callWorker extractor defaultNamespace files result')"

definition extractKeysOfFiles ::
  "Worker \<Rightarrow> string list \<Rightarrow> string option \<Rightarrow> string option \<Rightarrow> error + ExtractionResults" where
  "extractKeysOfFiles callWorker files extractor defaultNamespace =
     settleAll callWorker extractor defaultNamespace files []"

subsection \<open>Aggregation\<close>

text \<open>\<open>key.namespace || NullNamespace\<close>\<close>

definition namespaceOf :: "ExtractedKey \<Rightarrow> Namespace" where
  "namespaceOf key =
     (case namespace key of
        None \<Rightarrow> NullNamespace
      | Some s \<Rightarrow> if s = [] then NullNamespace else Named s)"

text \<open>\<open>key.defaultValue || null\<close>\<close>

definition valueOf :: "ExtractedKey \<Rightarrow> string option" where
  "valueOf key =
     (case defaultValue key of
        None \<Rightarrow> None
      | Some s \<Rightarrow> if s = [] then None else Some s)"

text \<open>
  The body of the inner loop of \<open>filterExtractionResult\<close>: create the bucket when the
  namespace is not yet a property, then set the key in it.
\<close>

definition addKey :: "FilteredKeys \<Rightarrow> ExtractedKey \<Rightarrow> FilteredKeys" where
  "addKey result key =
     (let ns = namespaceOf key;
          result' = (case result ns of None \<Rightarrow> result(ns \<mapsto> []) | Some _ \<Rightarrow> result);
          bucket = (case result' ns of None \<Rightarrow> [] | Some b \<Rightarrow> b)
      in result'(ns \<mapsto> Map_set bucket (keyName key) (valueOf key)))"

fun addKeys :: "FilteredKeys \<Rightarrow> ExtractedKey list \<Rightarrow> FilteredKeys" where
  "addKeys result [] = result"
| "addKeys result (key # ks) = addKeys (addKey result key) ks"

fun addResults :: "FilteredKeys \<Rightarrow> ExtractionResult list \<Rightarrow> FilteredKeys" where
  "addResults result [] = result"
| "addResults result (r # rs) = addResults (addKeys result (keys r)) rs"

definition filterExtractionResult :: "ExtractionResults \<Rightarrow> FilteredKeys" where
  "filterExtractionResult data = addResults Map.empty (Map_values data)"

text \<open>All keys of a results map, in the order in which the two loops visit them.\<close>

definition allKeys :: "ExtractionResults \<Rightarrow> ExtractedKey list" where
  "allKeys data = concat (map keys (Map_values data))"

text \<open>
  The occurrences of a key name in a namespace bucket, and the one visited last.
\<close>

definition occurrences :: "Namespace \<Rightarrow> string \<Rightarrow> ExtractionResults \<Rightarrow> ExtractedKey list" where
  "occurrences ns k data =
     filter (\<lambda>key. namespaceOf key = ns \<and> keyName key = k) (allKeys data)"

definition lastOccurrence :: "Namespace \<Rightarrow> string \<Rightarrow> ExtractionResults \<Rightarrow> ExtractedKey option" where
  "lastOccurrence ns k data =
     (case rev (occurrences ns k data) of [] \<Rightarrow> None | key # _ \<Rightarrow> Some key)"

text \<open>Reading a bucket: \<open>result[ns]?.get(k)\<close>; the outer \<open>None\<close> is \<open>undefined\<close>.\<close>

definition bucketGet :: "FilteredKeys \<Rightarrow> Namespace \<Rightarrow> string \<Rightarrow> string option option" where
  "bucketGet result ns k = (case result ns of None \<Rightarrow> None | Some b \<Rightarrow> map_of b k)"

text \<open>A results map in which every empty-string default value is taken away.\<close>

definition dropEmptyDefault :: "ExtractedKey \<Rightarrow> ExtractedKey" where
  "dropEmptyDefault key =
     (if defaultValue key = Some [] then key\<lparr>defaultValue := None\<rparr> else key)"

definition dropEmptyDefaults :: "ExtractionResults \<Rightarrow> ExtractionResults" where
  "dropEmptyDefaults data =
     map (\<lambda>(file, r). (file, r\<lparr>keys := map dropEmptyDefault (keys r)\<rparr>)) data"

text \<open>The invariant of the aggregation loop: no bucket is empty or repeats a name.\<close>

definition wellFormed :: "FilteredKeys \<Rightarrow> bool" where
  "wellFormed result = (\<forall>ns b. result ns = Some b \<longrightarrow> b \<noteq> [] \<and> distinct (map fst b))"

subsection \<open>The scenarios of the specification\<close>

definition keyHello :: ExtractedKey where
  "keyHello = \<lparr>keyName = ''hello'', namespace = Some ''common'', defaultValue = Some ''Hello''\<rparr>"

definition keyBye :: ExtractedKey where
  "keyBye = \<lparr>keyName = ''bye'', namespace = None, defaultValue = Some ''Bye''\<rparr>"

text \<open>
  Scenarios A to C: \<open>a.ts\<close> and \<open>b.ts\<close> yield one key each, the extractor throws
  for every other file.
\<close>

definition scenarioWorker :: Worker where
  "scenarioWorker extractor file =
     (if file = ''a.ts'' then Inr \<lparr>keys = [keyHello]\<rparr>
      else if file = ''b.ts'' then Inr \<lparr>keys = [keyBye]\<rparr>
      else Inl (Thrown file))"

text \<open>
  One file with a key without namespace, a key of the namespace \<open>"null"\<close> and a key
  whose namespace is the empty string.
\<close>

definition keyPlain :: ExtractedKey where
  "keyPlain = \<lparr>keyName = ''plain'', namespace = None, defaultValue = Some ''P''\<rparr>"

definition keyQuoted :: ExtractedKey where
  "keyQuoted = \<lparr>keyName = ''quoted'', namespace = Some ''null'', defaultValue = Some ''Q''\<rparr>"

definition keyBlank :: ExtractedKey where
  "keyBlank = \<lparr>keyName = ''blank'', namespace = Some [], defaultValue = Some ''B''\<rparr>"

definition namespaceWorker :: Worker where
  "namespaceWorker extractor file =
     (if file = ''n.ts'' then Inr \<lparr>keys = [keyPlain, keyQuoted, keyBlank]\<rparr>
      else Inl (Thrown file))"

text \<open>Scenario D: two files yield the same key of namespace \<open>ns\<close> with different values.\<close>

definition keyX :: "string \<Rightarrow> ExtractedKey" where
  "keyX v = \<lparr>keyName = ''x'', namespace = Some ''ns'', defaultValue = Some v\<rparr>"

definition scenarioD :: ExtractionResults where
  "scenarioD = [(''a.ts'', \<lparr>keys = [keyX ''one'']\<rparr>), (''b.ts'', \<lparr>keys = [keyX ''two'']\<rparr>)]"

text \<open>Two files that yield the same key with the same value.\<close>

definition scenarioSame :: ExtractionResults where
  "scenarioSame = [(''a.ts'', \<lparr>keys = [keyX ''same'']\<rparr>), (''b.ts'', \<lparr>keys = [keyX ''same'']\<rparr>)]"

text \<open>A key whose default value is the empty string.\<close>

definition keyEmptyValue :: ExtractedKey where
  "keyEmptyValue = \<lparr>keyName = ''e'', namespace = Some ''ns'', defaultValue = Some []\<rparr>"

text \<open>Two files that yield the same key without namespace, with different values.\<close>

definition keyY :: "string \<Rightarrow> ExtractedKey" where
  "keyY v = \<lparr>keyName = ''y'', namespace = None, defaultValue = Some v\<rparr>"

definition scenarioNoNamespace :: ExtractionResults where
  "scenarioNoNamespace = [(''a.ts'', \<lparr>keys = [keyY ''one'']\<rparr>), (''b.ts'', \<lparr>keys = [keyY ''two'']\<rparr>)]"

text \<open>Scenario D with the empty string as the default value of the file folded last.\<close>

definition scenarioEmptyLast :: ExtractionResults where
  "scenarioEmptyLast = [(''a.ts'', \<lparr>keys = [keyX ''one'']\<rparr>), (''b.ts'', \<lparr>keys = [keyX []]\<rparr>)]"

text \<open>Two files that agree on a triple whose default value is the empty string.\<close>

definition scenarioSameEmpty :: ExtractionResults where
  "scenarioSameEmpty = [(''a.ts'', \<lparr>keys = [keyX []]\<rparr>), (''b.ts'', \<lparr>keys = [keyX []]\<rparr>)]"

text \<open>Two files that agree on a triple whose namespace is the empty string.\<close>

definition keyZ :: ExtractedKey where
  "keyZ = \<lparr>keyName = ''z'', namespace = Some [], defaultValue = Some ''v''\<rparr>"

definition scenarioSameBlank :: ExtractionResults where
  "scenarioSameBlank = [(''a.ts'', \<lparr>keys = [keyZ]\<rparr>), (''b.ts'', \<lparr>keys = [keyZ]\<rparr>)]"

section \<open>Properties of the association-list map\<close>

lemma map_of_Map_set: "map_of (Map_set m k v) = (map_of m)(k \<mapsto> v)"
  by (induction m) (auto simp: fun_eq_iff)

lemma keys_Map_set: "fst ` set (Map_set m k v) = insert k (fst ` set m)"
proof -
  have "dom (map_of (Map_set m k v)) = insert k (dom (map_of m))"
    by (simp add: map_of_Map_set)
  then show ?thesis by (simp add: dom_map_of_conv_image_fst)
qed

lemma distinct_Map_set: "distinct (map fst m) \<Longrightarrow> distinct (map fst (Map_set m k v))"
proof (induction m)
  case Nil
  show ?case by simp
next
  case (Cons p m)
  obtain k' v' where p: "p = (k', v')" by (cases p)
  from Cons.prems p have d: "distinct (map fst m)" and n: "k' \<notin> fst ` set m" by auto
  show ?case
  proof (cases "k' = k")
    case True
    with p Cons.prems show ?thesis by simp
  next
    case False
    from n False have "k' \<notin> fst ` set (Map_set m k v)" by (simp add: keys_Map_set)
    with False p Cons.IH [OF d] show ?thesis by simp
  qed
qed

lemma Map_set_not_Nil: "Map_set m k v \<noteq> []"
  by (cases m) (auto split: if_splits)

section \<open>Properties of the aggregation loop\<close>

lemma addKey_apply:
  "addKey result key ns =
     (if ns = namespaceOf key
      then Some (Map_set (case result ns of None \<Rightarrow> [] | Some b \<Rightarrow> b) (keyName key) (valueOf key))
      else result ns)"
  by (simp add: addKey_def Let_def split: option.splits)

lemma addKeys_append: "addKeys result (xs @ ys) = addKeys (addKeys result xs) ys"
  by (induction xs arbitrary: result) simp_all

lemma addResults_addKeys: "addResults result rs = addKeys result (concat (map keys rs))"
  by (induction rs arbitrary: result) (simp_all add: addKeys_append)

lemma filterExtractionResult_allKeys:
  "filterExtractionResult data = addKeys Map.empty (allKeys data)"
  by (simp add: filterExtractionResult_def allKeys_def addResults_addKeys)

lemma bucketGet_addKey:
  "bucketGet (addKey result key) ns k =
     (if namespaceOf key = ns \<and> keyName key = k then Some (valueOf key) else bucketGet result ns k)"
  by (auto simp: bucketGet_def addKey_apply map_of_Map_set split: option.splits)

lemma bucketGet_addKeys:
  "bucketGet (addKeys result ks) ns k =
     (case rev (filter (\<lambda>key. namespaceOf key = ns \<and> keyName key = k) ks) of
        [] \<Rightarrow> bucketGet result ns k
      | key # _ \<Rightarrow> Some (valueOf key))"
proof (induction ks arbitrary: result rule: rev_induct)
  case Nil
  show ?case by simp
next
  case (snoc key ks)
  show ?case by (simp add: addKeys_append bucketGet_addKey snoc.IH)
qed

lemma bucketGet_filterExtractionResult:
  "bucketGet (filterExtractionResult data) ns k = map_option valueOf (lastOccurrence ns k data)"
proof -
  have e: "bucketGet Map.empty ns k = None" by (simp add: bucketGet_def)
  show ?thesis
    unfolding filterExtractionResult_allKeys bucketGet_addKeys lastOccurrence_def occurrences_def e
    by (simp split: list.splits)
qed

lemma wellFormed_addKey: "wellFormed result \<Longrightarrow> wellFormed (addKey result key)"
  by (auto simp: wellFormed_def addKey_apply Map_set_not_Nil distinct_Map_set split: option.splits if_splits)

lemma wellFormed_addKeys: "wellFormed result \<Longrightarrow> wellFormed (addKeys result ks)"
  by (induction ks arbitrary: result) (simp_all add: wellFormed_addKey)

lemma wellFormed_filterExtractionResult: "wellFormed (filterExtractionResult data)"
proof -
  have "wellFormed Map.empty" by (simp add: wellFormed_def)
  then show ?thesis
    unfolding filterExtractionResult_allKeys by (rule wellFormed_addKeys)
qed

lemma dom_addKey: "dom (addKey result key) = insert (namespaceOf key) (dom result)"
  by (auto simp: addKey_apply dom_def)

lemma dom_addKeys: "dom (addKeys result ks) = dom result \<union> namespaceOf ` set ks"
  by (induction ks arbitrary: result) (auto simp: dom_addKey)

lemma dom_filterExtractionResult: "dom (filterExtractionResult data) = namespaceOf ` set (allKeys data)"
  by (simp add: filterExtractionResult_allKeys dom_addKeys)

lemma lastOccurrence_in_occurrences:
  "set_option (lastOccurrence ns k data) \<subseteq> set (occurrences ns k data)"
proof (cases "rev (occurrences ns k data)")
  case Nil
  then show ?thesis by (simp add: lastOccurrence_def)
next
  case (Cons key ks)
  then have "key \<in> set (rev (occurrences ns k data))" by simp
  with Cons show ?thesis by (simp add: lastOccurrence_def)
qed

section \<open>Properties of the extraction run\<close>

lemma settleAll_rejects:
  "file \<in> set files \<Longrightarrow> callWorker extractor file = Inl e \<Longrightarrow>
   isl (settleAll callWorker extractor defaultNamespace files result)"
proof (induction files arbitrary: result)
  case Nil
  then show ?case by simp
next
  case (Cons f fs)
  show ?case
  proof (cases "fileTask callWorker extractor defaultNamespace f result")
    case (Inl e')
    then show ?thesis by simp
  next
    case (Inr result')
    with Cons.prems have "file \<noteq> f"
      by (auto simp: fileTask_def extractKeysFromFile_def)
    with Cons.prems have "file \<in> set fs" by simp
    from Cons.IH [OF this Cons.prems(2)] Inr show ?thesis by simp
  qed
qed

lemma settleAll_map_of:
  "settleAll callWorker extractor defaultNamespace files result = Inr data \<Longrightarrow>
   map_of data file =
     (if file \<in> set files
      then (case callWorker extractor file of
              Inl e \<Rightarrow> None
            | Inr ks \<Rightarrow> Some (rewriteNamespaces defaultNamespace ks))
      else map_of result file)"
proof (induction files arbitrary: result)
  case Nil
  then show ?case by simp
next
  case (Cons f fs)
  from Cons.prems obtain ks where
    w: "callWorker extractor f = Inr ks" and
    s: "settleAll callWorker extractor defaultNamespace fs
          (Map_set result f (rewriteNamespaces defaultNamespace ks)) = Inr data"
    by (auto simp: fileTask_def extractKeysFromFile_def split: sum.splits)
  from Cons.IH [OF s] w show ?case
    by (simp add: map_of_Map_set)
qed

lemma set_Map_set: "set (Map_set m k v) \<subseteq> insert (k, v) (set m)"
  by (induction m) (auto split: if_splits)

lemma settleAll_entries:
  "settleAll callWorker extractor defaultNamespace files result = Inr data \<Longrightarrow>
   (file, r) \<in> set data \<Longrightarrow>
   (file, r) \<in> set result \<or>
   (\<exists>ks. callWorker extractor file = Inr ks \<and> r = rewriteNamespaces defaultNamespace ks)"
proof (induction files arbitrary: result)
  case Nil
  then show ?case by simp
next
  case (Cons f fs)
  from Cons.prems(1) obtain ks where
    w: "callWorker extractor f = Inr ks" and
    s: "settleAll callWorker extractor defaultNamespace fs
          (Map_set result f (rewriteNamespaces defaultNamespace ks)) = Inr data"
    by (auto simp: fileTask_def extractKeysFromFile_def split: sum.splits)
  from Cons.IH [OF s Cons.prems(2)] w set_Map_set [of result f "rewriteNamespaces defaultNamespace ks"]
  show ?case by auto
qed

lemma extractKeysOfFiles_entry:
  assumes "extractKeysOfFiles callWorker files extractor defaultNamespace = Inr data"
    and "file \<in> set files"
  shows "\<exists>ks. callWorker extractor file = Inr ks
     \<and> (file, rewriteNamespaces defaultNamespace ks) \<in> set data"
proof -
  from assms(1) have s: "settleAll callWorker extractor defaultNamespace files [] = Inr data"
    by (simp add: extractKeysOfFiles_def)
  obtain ks where w: "callWorker extractor file = Inr ks"
  proof (cases "callWorker extractor file")
    case (Inl e)
    from settleAll_rejects [where callWorker = callWorker and extractor = extractor, OF assms(2) Inl]
    have "isl (settleAll callWorker extractor defaultNamespace files [])" .
    with s show ?thesis by simp
  next
    case (Inr ks)
    with that show ?thesis .
  qed
  from settleAll_map_of [OF s, of "file"] assms(2) w
  have "map_of data file = Some (rewriteNamespaces defaultNamespace ks)" by simp
  then have "(file, rewriteNamespaces defaultNamespace ks) \<in> set data" by (rule map_of_SomeD)
  with w show ?thesis by blast
qed

lemma extractKeysOfFiles_allKeys:
  assumes "extractKeysOfFiles callWorker files extractor defaultNamespace = Inr data"
    and "key \<in> set (allKeys data)"
  shows "\<exists>key0. key = applyDefaultNamespace defaultNamespace key0"
proof -
  from assms(1) have s: "settleAll callWorker extractor defaultNamespace files [] = Inr data"
    by (simp add: extractKeysOfFiles_def)
  from assms(2) obtain f r where m: "(f, r) \<in> set data" and k: "key \<in> set (keys r)"
    by (auto simp: allKeys_def Map_values_def)
  from settleAll_entries [OF s m] obtain ks where "r = rewriteNamespaces defaultNamespace ks"
    by auto
  with k show ?thesis by (auto simp: rewriteNamespaces_def)
qed

lemma allKeys_member:
  "(file, r) \<in> set data \<Longrightarrow> key \<in> set (keys r) \<Longrightarrow> key \<in> set (allKeys data)"
  by (force simp: allKeys_def Map_values_def)

lemma lands_in_bucket:
  assumes "key \<in> set (allKeys data)"
  shows "\<exists>b. filterExtractionResult data (namespaceOf key) = Some b \<and> keyName key \<in> fst ` set b"
proof -
  from assms have o: "key \<in> set (occurrences (namespaceOf key) (keyName key) data)"
    by (simp add: occurrences_def)
  then have "rev (occurrences (namespaceOf key) (keyName key) data) \<noteq> []" by auto
  then have "lastOccurrence (namespaceOf key) (keyName key) data \<noteq> None"
    by (simp add: lastOccurrence_def split: list.splits)
  with bucketGet_filterExtractionResult [of data "namespaceOf key" "keyName key"]
  have "bucketGet (filterExtractionResult data) (namespaceOf key) (keyName key) \<noteq> None" by simp
  then obtain b where b: "filterExtractionResult data (namespaceOf key) = Some b"
    and "map_of b (keyName key) \<noteq> None"
    by (auto simp: bucketGet_def split: option.splits)
  then have "keyName key \<in> fst ` set b" by (simp add: map_of_eq_None_iff)
  with b show ?thesis by blast
qed

lemma bucket_names:
  assumes "filterExtractionResult data ns = Some b"
  shows "fst ` set b = keyName ` {key \<in> set (allKeys data). namespaceOf key = ns}"
proof -
  have "k \<in> fst ` set b \<longleftrightarrow> k \<in> keyName ` {key \<in> set (allKeys data). namespaceOf key = ns}" for k
  proof -
    from assms bucketGet_filterExtractionResult [of data ns k]
    have "map_of b k = map_option valueOf (lastOccurrence ns k data)" by (simp add: bucketGet_def)
    then have "map_of b k = None \<longleftrightarrow> occurrences ns k data = []"
      by (simp add: lastOccurrence_def split: list.splits)
    then have "k \<in> fst ` set b \<longleftrightarrow> occurrences ns k data \<noteq> []"
      by (auto simp: map_of_eq_None_iff)
    also have "\<dots> \<longleftrightarrow> k \<in> keyName ` {key \<in> set (allKeys data). namespaceOf key = ns}"
      by (auto simp: occurrences_def filter_empty_conv)
    finally show ?thesis .
  qed
  then show ?thesis by blast
qed

lemma applyDefaultNamespace_keyName [simp]:
  "keyName (applyDefaultNamespace d key) = keyName key"
  by (simp add: applyDefaultNamespace_def)

lemma namespaceOf_applyDefault_truthy:
  "d \<noteq> [] \<Longrightarrow> \<not> truthy (namespace key) \<Longrightarrow>
   namespaceOf (applyDefaultNamespace (Some d) key) = Named d"
  by (simp add: applyDefaultNamespace_def namespaceOf_def truthy_def)

lemma namespaceOf_applyDefault_not_null:
  "d \<noteq> [] \<Longrightarrow> namespaceOf (applyDefaultNamespace (Some d) key) \<noteq> NullNamespace"
  by (auto simp: applyDefaultNamespace_def namespaceOf_def truthy_def split: option.splits)

lemma applyDefaultNamespace_falsy:
  "\<not> truthy d \<Longrightarrow> applyDefaultNamespace d key = key"
  by (simp add: applyDefaultNamespace_def)

lemma rewriteNamespaces_falsy: "\<not> truthy d \<Longrightarrow> rewriteNamespaces d ks = ks"
proof -
  assume "\<not> truthy d"
  then have "map (applyDefaultNamespace d) (keys ks) = keys ks"
    by (intro map_idI) (simp add: applyDefaultNamespace_falsy)
  then show ?thesis by (simp add: rewriteNamespaces_def)
qed

lemma namespaceOf_Null_iff: "namespaceOf key = NullNamespace \<longleftrightarrow> \<not> truthy (namespace key)"
  by (simp add: namespaceOf_def truthy_def split: option.splits)

lemma namespaceOf_Named: "namespace key = Some s \<Longrightarrow> s \<noteq> [] \<Longrightarrow> namespaceOf key = Named s"
  by (simp add: namespaceOf_def)

lemma namespaceOf_not_empty: "namespaceOf key \<noteq> Named []"
  by (simp add: namespaceOf_def split: option.splits)

lemma agreeing_occurrences:
  assumes "valueOf ` set (occurrences ns k data) = {v}"
  shows "bucketGet (filterExtractionResult data) ns k = Some v"
proof -
  from assms have "set (occurrences ns k data) \<noteq> {}" by auto
  then have "rev (occurrences ns k data) \<noteq> []" by simp
  then obtain key where l: "lastOccurrence ns k data = Some key"
    by (cases "rev (occurrences ns k data)") (simp_all add: lastOccurrence_def)
  with lastOccurrence_in_occurrences [of ns k data]
  have "key \<in> set (occurrences ns k data)" by simp
  then have "valueOf key \<in> valueOf ` set (occurrences ns k data)" by (rule imageI)
  with assms have "valueOf key = v" by simp
  with l show ?thesis by (simp add: bucketGet_filterExtractionResult)
qed

lemma addKey_dropEmptyDefault: "addKey result (dropEmptyDefault key) = addKey result key"
  by (simp add: addKey_def dropEmptyDefault_def namespaceOf_def valueOf_def)

lemma addKeys_dropEmptyDefault: "addKeys result (map dropEmptyDefault ks) = addKeys result ks"
  by (induction ks arbitrary: result) (simp_all add: addKey_dropEmptyDefault)

lemma allKeys_dropEmptyDefaults:
  "allKeys (dropEmptyDefaults data) = map dropEmptyDefault (allKeys data)"
  by (induction data) (auto simp: allKeys_def dropEmptyDefaults_def Map_values_def)

lemma valueOf_falsy: "\<not> truthy (defaultValue key) \<Longrightarrow> valueOf key = None"
  by (simp add: valueOf_def truthy_def split: option.splits)

lemma one_entry:
  "distinct (map fst b) \<Longrightarrow> k \<in> fst ` set b \<Longrightarrow>
   length (filter (\<lambda>entry. fst entry = k) b) = 1"
proof (induction b)
  case Nil
  then show ?case by simp
next
  case (Cons p b)
  show ?case
  proof (cases "fst p = k")
    case True
    with Cons.prems(1) have "k \<notin> fst ` set b" by auto
    then have "filter (\<lambda>entry. fst entry = k) b = []"
      by (auto simp: filter_empty_conv)
    with True show ?thesis by simp
  next
    case False
    with Cons.prems have "distinct (map fst b)" and "k \<in> fst ` set b" by auto
    from Cons.IH [OF this] False show ?thesis by simp
  qed
qed

lemma valueOf_raw:
  "valueOf key = (if truthy (defaultValue key) then defaultValue key else None)"
  by (simp add: valueOf_def truthy_def split: option.splits)

lemma lastOccurrence_None: "lastOccurrence ns k data = None \<Longrightarrow> occurrences ns k data = []"
  by (cases "rev (occurrences ns k data)") (simp_all add: lastOccurrence_def)

lemma lastOccurrence_Some:
  "lastOccurrence ns k data = Some l \<Longrightarrow> \<exists>earlier. occurrences ns k data = earlier @ [l]"
proof -
  assume a: "lastOccurrence ns k data = Some l"
  then obtain ks where "rev (occurrences ns k data) = l # ks"
    by (cases "rev (occurrences ns k data)") (simp_all add: lastOccurrence_def)
  then have "occurrences ns k data = rev ks @ [l]" by (simp add: rev_swap)
  then show ?thesis ..
qed

lemma occurrences_Named:
  "set (occurrences (Named s) k data)
     = {key \<in> set (allKeys data). namespace key = Some s \<and> s \<noteq> [] \<and> keyName key = k}"
  by (auto simp: occurrences_def namespaceOf_def split: option.splits if_splits)

lemma valueOf_truthy: "defaultValue key = Some d \<Longrightarrow> d \<noteq> [] \<Longrightarrow> valueOf key = Some d"
  by (simp add: valueOf_def)

lemmas aggregation_simps =
  filterExtractionResult_def Map_values_def addKey_def namespaceOf_def valueOf_def Let_def

lemmas run_simps =
  extractKeysOfFiles_def fileTask_def extractKeysFromFile_def rewriteNamespaces_def
  applyDefaultNamespace_def truthy_def

section \<open>The claims\<close>

text \<open>
  C1, as amended. In a run without a run-wide default namespace (none given, or the empty
  string, which the code treats as none), take a key that the extractor returned for one
  of the files. If the key has no namespace (none given, or the empty string, which the
  code treats as none), its name is in the null-namespace bucket of the result of
  \<open>filterExtractionResult\<close>. If the key has a non-empty namespace \<open>s\<close>, for instance
  \<open>"null"\<close>, its name is in the bucket of the string \<open>s\<close>, a property key different from
  the null-namespace symbol. The null-namespace bucket holds the names of the keys that
  have no namespace and no others, and the result never has a bucket for the empty
  string.
\<close>

theorem null_namespace_bucket:
  assumes "extractKeysOfFiles callWorker files extractor defaultNamespace = Inr data"
    and "\<not> truthy defaultNamespace"
    and "file \<in> set files" and "callWorker extractor file = Inr ks"
    and "key \<in> set (keys ks)"
  shows "(\<not> truthy (namespace key) \<longrightarrow>
            (\<exists>b. filterExtractionResult data NullNamespace = Some b \<and> keyName key \<in> fst ` set b))
     \<and> (\<forall>s. namespace key = Some s \<and> s \<noteq> [] \<longrightarrow>
            Named s \<noteq> NullNamespace
            \<and> (\<exists>b. filterExtractionResult data (Named s) = Some b \<and> keyName key \<in> fst ` set b))
     \<and> (\<forall>b. filterExtractionResult data NullNamespace = Some b \<longrightarrow>
            fst ` set b = keyName ` {key' \<in> set (allKeys data). \<not> truthy (namespace key')})
     \<and> filterExtractionResult data (Named []) = None"
proof -
  from extractKeysOfFiles_entry [OF assms(1,3)] assms(2,4)
  have "(file, ks) \<in> set data" by (simp add: rewriteNamespaces_falsy)
  from allKeys_member [OF this assms(5)] have m: "key \<in> set (allKeys data)" .
  note l = lands_in_bucket [OF m]
  from l have 1: "\<not> truthy (namespace key) \<longrightarrow>
      (\<exists>b. filterExtractionResult data NullNamespace = Some b \<and> keyName key \<in> fst ` set b)"
    by (auto simp: namespaceOf_Null_iff [symmetric])
  from l have 2: "\<forall>s. namespace key = Some s \<and> s \<noteq> [] \<longrightarrow>
      Named s \<noteq> NullNamespace
      \<and> (\<exists>b. filterExtractionResult data (Named s) = Some b \<and> keyName key \<in> fst ` set b)"
    by (auto simp: namespaceOf_Named)
  have 3: "\<forall>b. filterExtractionResult data NullNamespace = Some b \<longrightarrow>
      fst ` set b = keyName ` {key' \<in> set (allKeys data). \<not> truthy (namespace key')}"
    by (simp add: bucket_names namespaceOf_Null_iff)
  have "Named [] \<notin> dom (filterExtractionResult data)"
    by (auto simp: dom_filterExtractionResult namespaceOf_not_empty [symmetric])
  then have 4: "filterExtractionResult data (Named []) = None" by (simp add: dom_def)
  from 1 2 3 4 show ?thesis by blast
qed

text \<open>
  One file with a key without namespace, a key of the namespace \<open>"null"\<close> and a key of the
  namespace \<open>""\<close>: the first and the third share the null-namespace bucket, the second
  has the bucket \<open>"null"\<close>.
\<close>

theorem null_namespace_bucket_witness:
  "extractKeysOfFiles namespaceWorker [''n.ts''] None None
     = Inr [(''n.ts'', \<lparr>keys = [keyPlain, keyQuoted, keyBlank]\<rparr>)]
   \<and> \<not> truthy None
   \<and> ''n.ts'' \<in> set [''n.ts'']
   \<and> namespaceWorker None ''n.ts'' = Inr \<lparr>keys = [keyPlain, keyQuoted, keyBlank]\<rparr>
   \<and> keyPlain \<in> set (keys \<lparr>keys = [keyPlain, keyQuoted, keyBlank]\<rparr>)
   \<and> keyQuoted \<in> set (keys \<lparr>keys = [keyPlain, keyQuoted, keyBlank]\<rparr>)
   \<and> \<not> truthy (namespace keyPlain)
   \<and> namespace keyQuoted = Some ''null'' \<and> ''null'' \<noteq> []
   \<and> filterExtractionResult [(''n.ts'', \<lparr>keys = [keyPlain, keyQuoted, keyBlank]\<rparr>)] NullNamespace
       = Some [(''plain'', Some ''P''), (''blank'', Some ''B'')]
   \<and> filterExtractionResult [(''n.ts'', \<lparr>keys = [keyPlain, keyQuoted, keyBlank]\<rparr>)] (Named ''null'')
       = Some [(''quoted'', Some ''Q'')]
   \<and> keyName keyPlain \<in> fst ` set [(''plain'', Some ''P''), (''blank'', Some ''B'')]
   \<and> keyName keyQuoted \<in> fst ` set [(''quoted'', Some ''Q'')]
   \<and> fst ` set [(''plain'', Some ''P''), (''blank'', Some ''B'')]
       = keyName ` {key' \<in> set (allKeys [(''n.ts'', \<lparr>keys = [keyPlain, keyQuoted, keyBlank]\<rparr>)]).
                     \<not> truthy (namespace key')}
   \<and> filterExtractionResult [(''n.ts'', \<lparr>keys = [keyPlain, keyQuoted, keyBlank]\<rparr>)] (Named [])
       = None"
proof -
  let ?data = "[(''n.ts'', \<lparr>keys = [keyPlain, keyQuoted, keyBlank]\<rparr>)]"
  have run: "extractKeysOfFiles namespaceWorker [''n.ts''] None None = Inr ?data"
    by (simp add: run_simps namespaceWorker_def)
  have d: "\<not> truthy None" by (simp add: truthy_def)
  have f: "''n.ts'' \<in> set [''n.ts'']" by simp
  have w: "namespaceWorker None ''n.ts'' = Inr \<lparr>keys = [keyPlain, keyQuoted, keyBlank]\<rparr>"
    by (simp add: namespaceWorker_def)
  have k1: "keyPlain \<in> set (keys \<lparr>keys = [keyPlain, keyQuoted, keyBlank]\<rparr>)" by simp
  have k2: "keyQuoted \<in> set (keys \<lparr>keys = [keyPlain, keyQuoted, keyBlank]\<rparr>)" by simp
  have n1: "\<not> truthy (namespace keyPlain)" by (simp add: truthy_def keyPlain_def)
  have n2: "namespace keyQuoted = Some ''null'' \<and> ''null'' \<noteq> []" by (simp add: keyQuoted_def)
  have r0: "filterExtractionResult ?data NullNamespace
       = Some [(''plain'', Some ''P''), (''blank'', Some ''B'')]"
    by (simp add: aggregation_simps keyPlain_def keyQuoted_def keyBlank_def)
  have r1: "filterExtractionResult ?data (Named ''null'') = Some [(''quoted'', Some ''Q'')]"
    by (simp add: aggregation_simps keyPlain_def keyQuoted_def keyBlank_def)
  have e1: "keyName keyPlain \<in> fst ` set [(''plain'', Some ''P''), (''blank'', Some ''B'')]"
    by (simp add: keyPlain_def)
  have e2: "keyName keyQuoted \<in> fst ` set [(''quoted'', Some ''Q'')]"
    by (simp add: keyQuoted_def)
  note t1 = null_namespace_bucket [where callWorker = namespaceWorker and extractor = None,
      OF run d f w k1]
  note t2 = null_namespace_bucket [where callWorker = namespaceWorker and extractor = None,
      OF run d f w k2]
  from t1 r0 have 3: "fst ` set [(''plain'', Some ''P''), (''blank'', Some ''B'')]
       = keyName ` {key' \<in> set (allKeys ?data). \<not> truthy (namespace key')}"
    by blast
  from t2 have 4: "filterExtractionResult ?data (Named []) = None" by blast
  from run d f w k1 k2 n1 n2 r0 r1 e1 e2 3 4 show ?thesis by blast
qed

text \<open>
  C1 as stated fails for the user namespace \<open>""\<close>: a key with that namespace lands in the
  null-namespace bucket, no bucket for \<open>""\<close> exists, and the result is the same as for the
  key without namespace.
\<close>

theorem empty_namespace_counterexample:
  "namespace keyBlank = Some []
   \<and> filterExtractionResult [(''n.ts'', \<lparr>keys = [keyBlank]\<rparr>)] NullNamespace
       = Some [(''blank'', Some ''B'')]
   \<and> filterExtractionResult [(''n.ts'', \<lparr>keys = [keyBlank]\<rparr>)] (Named []) = None
   \<and> filterExtractionResult [(''n.ts'', \<lparr>keys = [keyBlank]\<rparr>)]
       = filterExtractionResult [(''n.ts'', \<lparr>keys = [keyBlank\<lparr>namespace := None\<rparr>]\<rparr>)]"
  by (simp add: aggregation_simps keyBlank_def)

text \<open>
  C2, as amended. In a run of \<open>extractKeysOfFiles\<close> with a non-empty run-wide default
  namespace \<open>d\<close> that resolves, every key that the extractor returned for one of the files
  without a namespace (none given, or the empty string) has its name in the bucket \<open>d\<close>
  of the result of \<open>filterExtractionResult\<close>, and the result has no null-namespace
  bucket at all. In particular Scenario B: with the default namespace \<open>"app"\<close> the result
  is \<open>{ common: {hello: "Hello"}, app: {bye: "Bye"} }\<close>, in either completion order.
\<close>

theorem default_namespace_bucket:
  "(\<forall>callWorker files extractor d data file ks key.
      extractKeysOfFiles callWorker files extractor (Some d) = Inr data \<and> d \<noteq> []
      \<and> file \<in> set files \<and> callWorker extractor file = Inr ks
      \<and> key \<in> set (keys ks) \<and> \<not> truthy (namespace key)
      \<longrightarrow> (\<exists>b. filterExtractionResult data (Named d) = Some b \<and> keyName key \<in> fst ` set b)
          \<and> filterExtractionResult data NullNamespace = None)
   \<and> extractKeysOfFiles scenarioWorker [''a.ts'', ''b.ts''] None (Some ''app'')
       = Inr [(''a.ts'', \<lparr>keys = [keyHello]\<rparr>),
              (''b.ts'', \<lparr>keys = [keyBye\<lparr>namespace := Some ''app''\<rparr>]\<rparr>)]
   \<and> filterExtractionResult
         [(''a.ts'', \<lparr>keys = [keyHello]\<rparr>),
          (''b.ts'', \<lparr>keys = [keyBye\<lparr>namespace := Some ''app''\<rparr>]\<rparr>)]
       = [Named ''common'' \<mapsto> [(''hello'', Some ''Hello'')],
          Named ''app'' \<mapsto> [(''bye'', Some ''Bye'')]]
   \<and> extractKeysOfFiles scenarioWorker [''b.ts'', ''a.ts''] None (Some ''app'')
       = Inr [(''b.ts'', \<lparr>keys = [keyBye\<lparr>namespace := Some ''app''\<rparr>]\<rparr>),
              (''a.ts'', \<lparr>keys = [keyHello]\<rparr>)]
   \<and> filterExtractionResult
         [(''b.ts'', \<lparr>keys = [keyBye\<lparr>namespace := Some ''app''\<rparr>]\<rparr>),
          (''a.ts'', \<lparr>keys = [keyHello]\<rparr>)]
       = [Named ''common'' \<mapsto> [(''hello'', Some ''Hello'')],
          Named ''app'' \<mapsto> [(''bye'', Some ''Bye'')]]"
proof -
  have general:
    "(\<exists>b. filterExtractionResult data (Named d) = Some b \<and> keyName key \<in> fst ` set b)
     \<and> filterExtractionResult data NullNamespace = None"
    if run: "extractKeysOfFiles callWorker files extractor (Some d) = Inr data"
      and d: "d \<noteq> []"
      and f: "file \<in> set files" and w: "callWorker extractor file = Inr ks"
      and k: "key \<in> set (keys ks)" and n: "\<not> truthy (namespace key)"
    for callWorker files extractor d data "file" ks key
  proof -
    from extractKeysOfFiles_entry [OF run f] w
    have "(file, rewriteNamespaces (Some d) ks) \<in> set data" by simp
    moreover from k have
      "applyDefaultNamespace (Some d) key \<in> set (keys (rewriteNamespaces (Some d) ks))"
      by (simp add: rewriteNamespaces_def)
    ultimately have "applyDefaultNamespace (Some d) key \<in> set (allKeys data)"
      by (rule allKeys_member)
    from lands_in_bucket [OF this] d n
    have 1: "\<exists>b. filterExtractionResult data (Named d) = Some b \<and> keyName key \<in> fst ` set b"
      by (simp add: namespaceOf_applyDefault_truthy)
    have "NullNamespace \<notin> namespaceOf ` set (allKeys data)"
    proof
      assume "NullNamespace \<in> namespaceOf ` set (allKeys data)"
      then obtain key' where "key' \<in> set (allKeys data)" and "namespaceOf key' = NullNamespace"
        by auto
      with extractKeysOfFiles_allKeys [OF run] namespaceOf_applyDefault_not_null [OF d]
      show False by metis
    qed
    then have "NullNamespace \<notin> dom (filterExtractionResult data)"
      by (simp add: dom_filterExtractionResult)
    then have 2: "filterExtractionResult data NullNamespace = None" by (simp add: dom_def)
    from 1 2 show ?thesis ..
  qed
  have b1: "extractKeysOfFiles scenarioWorker [''a.ts'', ''b.ts''] None (Some ''app'')
       = Inr [(''a.ts'', \<lparr>keys = [keyHello]\<rparr>),
              (''b.ts'', \<lparr>keys = [keyBye\<lparr>namespace := Some ''app''\<rparr>]\<rparr>)]"
    by (simp add: run_simps scenarioWorker_def keyHello_def keyBye_def)
  have b2: "extractKeysOfFiles scenarioWorker [''b.ts'', ''a.ts''] None (Some ''app'')
       = Inr [(''b.ts'', \<lparr>keys = [keyBye\<lparr>namespace := Some ''app''\<rparr>]\<rparr>),
              (''a.ts'', \<lparr>keys = [keyHello]\<rparr>)]"
    by (simp add: run_simps scenarioWorker_def keyHello_def keyBye_def)
  have f1: "filterExtractionResult
         [(''a.ts'', \<lparr>keys = [keyHello]\<rparr>),
          (''b.ts'', \<lparr>keys = [keyBye\<lparr>namespace := Some ''app''\<rparr>]\<rparr>)]
       = [Named ''common'' \<mapsto> [(''hello'', Some ''Hello'')],
          Named ''app'' \<mapsto> [(''bye'', Some ''Bye'')]]"
    by (simp add: aggregation_simps keyHello_def keyBye_def)
  have f2: "filterExtractionResult
         [(''b.ts'', \<lparr>keys = [keyBye\<lparr>namespace := Some ''app''\<rparr>]\<rparr>),
          (''a.ts'', \<lparr>keys = [keyHello]\<rparr>)]
       = [Named ''common'' \<mapsto> [(''hello'', Some ''Hello'')],
          Named ''app'' \<mapsto> [(''bye'', Some ''Bye'')]]"
    by (auto simp: aggregation_simps keyHello_def keyBye_def fun_eq_iff)
  from general b1 f1 b2 f2 show ?thesis by blast
qed

text \<open>Scenario B, for the key \<open>bye\<close> of \<open>b.ts\<close>.\<close>

theorem default_namespace_bucket_witness:
  "extractKeysOfFiles scenarioWorker [''a.ts'', ''b.ts''] None (Some ''app'')
     = Inr [(''a.ts'', \<lparr>keys = [keyHello]\<rparr>),
            (''b.ts'', \<lparr>keys = [keyBye\<lparr>namespace := Some ''app''\<rparr>]\<rparr>)]
   \<and> ''app'' \<noteq> []
   \<and> ''b.ts'' \<in> set [''a.ts'', ''b.ts'']
   \<and> scenarioWorker None ''b.ts'' = Inr \<lparr>keys = [keyBye]\<rparr>
   \<and> keyBye \<in> set (keys \<lparr>keys = [keyBye]\<rparr>)
   \<and> \<not> truthy (namespace keyBye)
   \<and> (\<exists>b. filterExtractionResult
               [(''a.ts'', \<lparr>keys = [keyHello]\<rparr>),
                (''b.ts'', \<lparr>keys = [keyBye\<lparr>namespace := Some ''app''\<rparr>]\<rparr>)]
               (Named ''app'') = Some b
            \<and> keyName keyBye \<in> fst ` set b)
   \<and> filterExtractionResult
         [(''a.ts'', \<lparr>keys = [keyHello]\<rparr>),
          (''b.ts'', \<lparr>keys = [keyBye\<lparr>namespace := Some ''app''\<rparr>]\<rparr>)]
         NullNamespace = None"
proof -
  have run: "extractKeysOfFiles scenarioWorker [''a.ts'', ''b.ts''] None (Some ''app'')
     = Inr [(''a.ts'', \<lparr>keys = [keyHello]\<rparr>),
            (''b.ts'', \<lparr>keys = [keyBye\<lparr>namespace := Some ''app''\<rparr>]\<rparr>)]"
    by (simp add: run_simps scenarioWorker_def keyHello_def keyBye_def)
  have d: "''app'' \<noteq> []" by simp
  have f: "''b.ts'' \<in> set [''a.ts'', ''b.ts'']" by simp
  have w: "scenarioWorker None ''b.ts'' = Inr \<lparr>keys = [keyBye]\<rparr>"
    by (simp add: scenarioWorker_def)
  have k: "keyBye \<in> set (keys \<lparr>keys = [keyBye]\<rparr>)" by simp
  have n: "\<not> truthy (namespace keyBye)" by (simp add: truthy_def keyBye_def)
  from default_namespace_bucket have
    "\<forall>callWorker files extractor d data file ks key.
      extractKeysOfFiles callWorker files extractor (Some d) = Inr data \<and> d \<noteq> []
      \<and> file \<in> set files \<and> callWorker extractor file = Inr ks
      \<and> key \<in> set (keys ks) \<and> \<not> truthy (namespace key)
      \<longrightarrow> (\<exists>b. filterExtractionResult data (Named d) = Some b \<and> keyName key \<in> fst ` set b)
          \<and> filterExtractionResult data NullNamespace = None"
    by (rule conjunct1)
  from this [rule_format, of scenarioWorker "[''a.ts'', ''b.ts'']" None "''app''" _ "''b.ts''"
      "\<lparr>keys = [keyBye]\<rparr>" keyBye] run d f w k n
  show ?thesis by simp
qed

text \<open>
  C2 as stated fails when the default namespace supplied is the empty string: the test
  \<open>!key.namespace && defaultNamespace\<close> is false, the key keeps no namespace and lands
  in the null-namespace bucket.
\<close>

theorem default_namespace_empty_counterexample:
  "extractKeysOfFiles scenarioWorker [''b.ts''] None (Some [])
     = Inr [(''b.ts'', \<lparr>keys = [keyBye]\<rparr>)]
   \<and> namespace keyBye = None
   \<and> filterExtractionResult [(''b.ts'', \<lparr>keys = [keyBye]\<rparr>)] NullNamespace
       = Some [(''bye'', Some ''Bye'')]
   \<and> filterExtractionResult [(''b.ts'', \<lparr>keys = [keyBye]\<rparr>)] (Named []) = None"
  by (simp add: run_simps scenarioWorker_def aggregation_simps keyBye_def)

text \<open>
  C3, as amended. For every results map, namespace \<open>ns\<close> and key name \<open>k\<close>: when no key
  of the map has the effective namespace \<open>ns\<close> and the name \<open>k\<close>, the result of
  \<open>filterExtractionResult\<close> holds nothing for \<open>k\<close> under \<open>ns\<close>. Otherwise the bucket \<open>ns\<close>
  exists, no name is repeated in it, it has exactly one entry for \<open>k\<close>, and the value of
  that entry comes from the occurrence that the loops visit last in the iteration order
  of the map and from no other: it is the default value of that occurrence when this is
  a non-empty string, and \<open>null\<close> when it is absent or the empty string.
\<close>

theorem last_write_wins:
  "(case lastOccurrence ns k data of
      None \<Rightarrow>
        occurrences ns k data = [] \<and> bucketGet (filterExtractionResult data) ns k = None
    | Some l \<Rightarrow>
        (\<exists>earlier. occurrences ns k data = earlier @ [l])
        \<and> (\<exists>b. filterExtractionResult data ns = Some b
              \<and> distinct (map fst b)
              \<and> length (filter (\<lambda>entry. fst entry = k) b) = 1
              \<and> map_of b k = Some (if truthy (defaultValue l) then defaultValue l else None)))"
proof (cases "lastOccurrence ns k data")
  case None
  from lastOccurrence_None [OF None] bucketGet_filterExtractionResult [of data ns k] None
  show ?thesis by simp
next
  case (Some l)
  from bucketGet_filterExtractionResult [of data ns k] Some
  have g: "bucketGet (filterExtractionResult data) ns k = Some (valueOf l)" by simp
  then obtain b where b: "filterExtractionResult data ns = Some b"
    and m: "map_of b k = Some (valueOf l)"
    by (auto simp: bucketGet_def split: option.splits)
  from b wellFormed_filterExtractionResult [of data] have d: "distinct (map fst b)"
    by (simp add: wellFormed_def)
  from m have "map_of b k \<noteq> None" by simp
  then have "k \<in> fst ` set b" by (simp add: map_of_eq_None_iff)
  from one_entry [OF d this] have c: "length (filter (\<lambda>entry. fst entry = k) b) = 1" .
  from m have m': "map_of b k = Some (if truthy (defaultValue l) then defaultValue l else None)"
    by (simp add: valueOf_raw)
  from b d c m' have "\<exists>b. filterExtractionResult data ns = Some b
              \<and> distinct (map fst b)
              \<and> length (filter (\<lambda>entry. fst entry = k) b) = 1
              \<and> map_of b k = Some (if truthy (defaultValue l) then defaultValue l else None)"
    by blast
  with lastOccurrence_Some [OF Some] Some show ?thesis by simp
qed

text \<open>
  Two files with the key \<open>y\<close> without namespace: the null-namespace bucket keeps \<open>y\<close> once,
  with the value of the file folded last. Scenario D: the bucket \<open>ns\<close> keeps \<open>x\<close> and has
  nothing for \<open>y\<close>.
\<close>

theorem last_write_wins_witness:
  "lastOccurrence NullNamespace ''y'' scenarioNoNamespace = Some (keyY ''two'')
   \<and> occurrences NullNamespace ''y'' scenarioNoNamespace = [keyY ''one'', keyY ''two'']
   \<and> filterExtractionResult scenarioNoNamespace NullNamespace = Some [(''y'', Some ''two'')]
   \<and> map_of [(''y'', Some ''two'')] ''y'' = Some (Some ''two'')
   \<and> lastOccurrence (Named ''ns'') ''x'' scenarioD = Some (keyX ''two'')
   \<and> filterExtractionResult scenarioD (Named ''ns'') = Some [(''x'', Some ''two'')]
   \<and> lastOccurrence (Named ''ns'') ''y'' scenarioD = None
   \<and> bucketGet (filterExtractionResult scenarioD) (Named ''ns'') ''y'' = None"
proof -
  have l1: "lastOccurrence NullNamespace ''y'' scenarioNoNamespace = Some (keyY ''two'')"
    by (simp add: lastOccurrence_def occurrences_def allKeys_def Map_values_def
        namespaceOf_def keyY_def scenarioNoNamespace_def)
  have o1: "occurrences NullNamespace ''y'' scenarioNoNamespace = [keyY ''one'', keyY ''two'']"
    by (simp add: occurrences_def allKeys_def Map_values_def
        namespaceOf_def keyY_def scenarioNoNamespace_def)
  have l2: "lastOccurrence (Named ''ns'') ''x'' scenarioD = Some (keyX ''two'')"
    by (simp add: lastOccurrence_def occurrences_def allKeys_def Map_values_def
        namespaceOf_def keyX_def scenarioD_def)
  have l3: "lastOccurrence (Named ''ns'') ''y'' scenarioD = None"
    by (simp add: lastOccurrence_def occurrences_def allKeys_def Map_values_def
        namespaceOf_def keyX_def scenarioD_def)
  have v1: "defaultValue (keyY ''two'') = Some ''two''" "truthy (Some ''two'')"
    by (simp_all add: keyY_def truthy_def)
  have r1: "filterExtractionResult scenarioNoNamespace NullNamespace = Some [(''y'', Some ''two'')]"
    by (simp add: aggregation_simps keyY_def scenarioNoNamespace_def)
  from last_write_wins [of NullNamespace "''y''" scenarioNoNamespace] l1 v1 r1
  have m1: "map_of [(''y'', Some ''two'')] ''y'' = Some (Some ''two'')" by auto
  have r2: "filterExtractionResult scenarioD (Named ''ns'') = Some [(''x'', Some ''two'')]"
    by (simp add: aggregation_simps keyX_def scenarioD_def)
  from last_write_wins [of "Named ''ns''" "''y''" scenarioD] l3
  have r3: "bucketGet (filterExtractionResult scenarioD) (Named ''ns'') ''y'' = None" by simp
  from l1 o1 r1 m1 l2 r2 l3 r3 show ?thesis by blast
qed

text \<open>
  C3 as stated fails where the occurrence folded last has the empty string as its default
  value: the candidates are \<open>"one"\<close> and \<open>""\<close>, and the value stored is \<open>null\<close>, which is
  neither.
\<close>

theorem last_write_null_counterexample:
  "occurrences (Named ''ns'') ''x'' scenarioEmptyLast = [keyX ''one'', keyX []]
   \<and> defaultValue (keyX ''one'') = Some ''one''
   \<and> defaultValue (keyX []) = Some []
   \<and> filterExtractionResult scenarioEmptyLast (Named ''ns'') = Some [(''x'', None)]
   \<and> None \<notin> defaultValue ` set (occurrences (Named ''ns'') ''x'' scenarioEmptyLast)"
  by (simp add: occurrences_def allKeys_def aggregation_simps keyX_def scenarioEmptyLast_def)

text \<open>
  C4. If the extractor throws for one of the submitted files, \<open>extractKeysOfFiles\<close>
  rejects: it returns an error and no results map, whatever the other files produced
  and in whatever order the workers settle.
\<close>

theorem extractor_failure_fails_run:
  assumes "file \<in> set files" and "callWorker extractor file = Inl e"
  shows "\<exists>e'. extractKeysOfFiles callWorker files extractor defaultNamespace = Inl e'"
proof -
  from settleAll_rejects [where callWorker = callWorker and extractor = extractor, OF assms]
  have "isl (settleAll callWorker extractor defaultNamespace files [])" .
  then show ?thesis
    by (cases "settleAll callWorker extractor defaultNamespace files []")
       (simp_all add: extractKeysOfFiles_def)
qed

text \<open>Scenario C, with \<open>c.ts\<close> settling after the two files that succeed.\<close>

theorem extractor_failure_fails_run_witness:
  "''c.ts'' \<in> set [''a.ts'', ''b.ts'', ''c.ts'']
   \<and> scenarioWorker None ''c.ts'' = Inl (Thrown ''c.ts'')
   \<and> extractKeysOfFiles scenarioWorker [''a.ts'', ''b.ts'', ''c.ts''] None None
       = Inl (Thrown ''c.ts'')"
proof -
  have m: "''c.ts'' \<in> set [''a.ts'', ''b.ts'', ''c.ts'']" by simp
  have w: "scenarioWorker None ''c.ts'' = Inl (Thrown ''c.ts'')"
    by (simp add: scenarioWorker_def)
  from extractor_failure_fails_run
         [where callWorker = scenarioWorker and extractor = None, OF m w, of None]
  obtain e' where
    "extractKeysOfFiles scenarioWorker [''a.ts'', ''b.ts'', ''c.ts''] None None = Inl e'" ..
  moreover have
    "extractKeysOfFiles scenarioWorker [''a.ts'', ''b.ts'', ''c.ts''] None None
       = Inl (Thrown ''c.ts'')"
    by (simp add: run_simps scenarioWorker_def)
  ultimately show ?thesis using m w by simp
qed

text \<open>
  C5, as amended. Let two results maps hold the same entries in different orders. If
  every key of the effective namespace \<open>ns\<close> and the name \<open>k\<close> has the same stored value
  \<open>v\<close> (\<open>key.defaultValue || null\<close>) and there is such a key, both results hold \<open>v\<close> for
  \<open>k\<close> under \<open>ns\<close>. In particular, if files produce the triple of a non-empty namespace
  \<open>s\<close>, the name \<open>k\<close> and a non-empty default value \<open>d\<close>, and every key of the namespace \<open>s\<close>
  and the name \<open>k\<close> has the default value \<open>d\<close>, both results hold \<open>d\<close> for \<open>k\<close> under \<open>s\<close>.
\<close>

theorem agreeing_values_order_independent:
  "(mset data' = mset data \<and> valueOf ` set (occurrences ns k data) = {v}
      \<longrightarrow> bucketGet (filterExtractionResult data) ns k = Some v
          \<and> bucketGet (filterExtractionResult data') ns k = Some v)
   \<and> (mset data' = mset data \<and> s \<noteq> [] \<and> d \<noteq> []
       \<and> key \<in> set (allKeys data)
       \<and> namespace key = Some s \<and> keyName key = k \<and> defaultValue key = Some d
       \<and> (\<forall>key' \<in> set (allKeys data).
             namespace key' = Some s \<and> keyName key' = k \<longrightarrow> defaultValue key' = Some d)
      \<longrightarrow> bucketGet (filterExtractionResult data) (Named s) k = Some (Some d)
          \<and> bucketGet (filterExtractionResult data') (Named s) k = Some (Some d))"
proof -
  have general: "bucketGet (filterExtractionResult data) ns k = Some v
          \<and> bucketGet (filterExtractionResult data') ns k = Some v"
    if p: "mset data' = mset data" and a: "valueOf ` set (occurrences ns k data) = {v}"
    for ns v
  proof -
    from p have "set data' = set data" by (rule mset_eq_setD)
    then have "set (occurrences ns k data') = set (occurrences ns k data)"
      by (simp add: occurrences_def allKeys_def Map_values_def)
    with a have "valueOf ` set (occurrences ns k data') = {v}" by simp
    from agreeing_occurrences [OF a] agreeing_occurrences [OF this]
    show ?thesis ..
  qed
  have triple: "bucketGet (filterExtractionResult data) (Named s) k = Some (Some d)
          \<and> bucketGet (filterExtractionResult data') (Named s) k = Some (Some d)"
    if p: "mset data' = mset data" and s: "s \<noteq> []" and d: "d \<noteq> []"
      and m: "key \<in> set (allKeys data)"
      and n: "namespace key = Some s" "keyName key = k" "defaultValue key = Some d"
      and a: "\<forall>key' \<in> set (allKeys data).
             namespace key' = Some s \<and> keyName key' = k \<longrightarrow> defaultValue key' = Some d"
  proof -
    from m n s have "key \<in> set (occurrences (Named s) k data)"
      by (simp add: occurrences_Named)
    moreover have "valueOf key' = Some d" if "key' \<in> set (occurrences (Named s) k data)" for key'
    proof -
      from that a have "defaultValue key' = Some d" by (simp add: occurrences_Named)
      from this d show ?thesis by (rule valueOf_truthy)
    qed
    ultimately have "valueOf ` set (occurrences (Named s) k data) = {Some d}" by auto
    with p show ?thesis by (rule general)
  qed
  from general triple show ?thesis by blast
qed

text \<open>Two files with the same triple, folded in both orders.\<close>

theorem agreeing_values_order_independent_witness:
  "mset (rev scenarioSame) = mset scenarioSame
   \<and> valueOf ` set (occurrences (Named ''ns'') ''x'' scenarioSame) = {Some ''same''}
   \<and> ''ns'' \<noteq> [] \<and> ''same'' \<noteq> []
   \<and> keyX ''same'' \<in> set (allKeys scenarioSame)
   \<and> namespace (keyX ''same'') = Some ''ns'' \<and> keyName (keyX ''same'') = ''x''
   \<and> defaultValue (keyX ''same'') = Some ''same''
   \<and> allKeys scenarioSame = [keyX ''same'', keyX ''same'']
   \<and> bucketGet (filterExtractionResult scenarioSame) (Named ''ns'') ''x'' = Some (Some ''same'')
   \<and> bucketGet (filterExtractionResult (rev scenarioSame)) (Named ''ns'') ''x''
       = Some (Some ''same'')"
proof -
  have p: "mset (rev scenarioSame) = mset scenarioSame" by simp
  have a: "valueOf ` set (occurrences (Named ''ns'') ''x'' scenarioSame) = {Some ''same''}"
    by (simp add: occurrences_def allKeys_def Map_values_def scenarioSame_def
        keyX_def namespaceOf_def valueOf_def)
  have ks: "allKeys scenarioSame = [keyX ''same'', keyX ''same'']"
    by (simp add: allKeys_def Map_values_def scenarioSame_def)
  have n: "''ns'' \<noteq> []" "''same'' \<noteq> []" by simp_all
  have m: "keyX ''same'' \<in> set (allKeys scenarioSame)" by (simp add: ks)
  have e: "namespace (keyX ''same'') = Some ''ns''" "keyName (keyX ''same'') = ''x''"
    "defaultValue (keyX ''same'') = Some ''same''"
    by (simp_all add: keyX_def)
  have q: "\<forall>key' \<in> set (allKeys scenarioSame).
      namespace key' = Some ''ns'' \<and> keyName key' = ''x'' \<longrightarrow> defaultValue key' = Some ''same''"
    by (simp add: ks keyX_def)
  note t = agreeing_values_order_independent
    [of "rev scenarioSame" scenarioSame "Named ''ns''" "''x''" "Some ''same''" "''ns''" "''same''"
        "keyX ''same''"]
  from t p a have 1:
    "bucketGet (filterExtractionResult scenarioSame) (Named ''ns'') ''x'' = Some (Some ''same'')"
    by blast
  from t p n m e q have 2:
    "bucketGet (filterExtractionResult (rev scenarioSame)) (Named ''ns'') ''x''
       = Some (Some ''same'')"
    by blast
  from p a n m e ks 1 2 show ?thesis by blast
qed

text \<open>
  C5 as stated fails for a triple with an empty string: two files that agree on the
  default value \<open>""\<close> leave \<open>null\<close> under the key, in both orders, and two files that agree
  on the namespace \<open>""\<close> leave nothing under that namespace, the key being in the
  null-namespace bucket.
\<close>

theorem agreeing_empty_counterexample:
  "allKeys scenarioSameEmpty = [keyX [], keyX []]
   \<and> namespace (keyX []) = Some ''ns'' \<and> keyName (keyX []) = ''x''
   \<and> defaultValue (keyX []) = Some []
   \<and> bucketGet (filterExtractionResult scenarioSameEmpty) (Named ''ns'') ''x'' = Some None
   \<and> bucketGet (filterExtractionResult (rev scenarioSameEmpty)) (Named ''ns'') ''x'' = Some None
   \<and> allKeys scenarioSameBlank = [keyZ, keyZ]
   \<and> namespace keyZ = Some [] \<and> keyName keyZ = ''z'' \<and> defaultValue keyZ = Some ''v''
   \<and> filterExtractionResult scenarioSameBlank (Named []) = None
   \<and> bucketGet (filterExtractionResult scenarioSameBlank) (Named []) ''z'' = None
   \<and> bucketGet (filterExtractionResult scenarioSameBlank) NullNamespace ''z'' = Some (Some ''v'')"
  by (simp add: allKeys_def bucketGet_def aggregation_simps keyX_def keyZ_def
      scenarioSameEmpty_def scenarioSameBlank_def)

text \<open>
  C7. When no file matches, \<open>extractKeysOfFiles\<close> resolves with the empty results map,
  and \<open>filterExtractionResult\<close> of it is the empty object: no bucket, hence no key.
\<close>

theorem noFiles_empty:
  "extractKeysOfFiles callWorker [] extractor defaultNamespace = Inr []
   \<and> filterExtractionResult [] = Map.empty"
  by (simp add: extractKeysOfFiles_def filterExtractionResult_def Map_values_def)

text \<open>
  C9. A key whose default value is absent or the empty string is stored with the value
  \<open>null\<close>: the step of the loop that handles it leaves \<open>null\<close> under its name in its
  bucket, and when it is the last occurrence of its name in the namespace the result of
  \<open>filterExtractionResult\<close> holds \<open>null\<close> for it. An empty default value cannot be told
  from an absent one: taking every empty default value away from the results map does not
  change the result.
\<close>

theorem empty_default_stored_as_null:
  "(\<not> truthy (defaultValue key) \<longrightarrow>
      bucketGet (addKey result key) (namespaceOf key) (keyName key) = Some None)
   \<and> (lastOccurrence ns k data = Some key \<and> \<not> truthy (defaultValue key) \<longrightarrow>
      bucketGet (filterExtractionResult data) ns k = Some None)
   \<and> filterExtractionResult (dropEmptyDefaults data) = filterExtractionResult data"
proof -
  have 1: "\<not> truthy (defaultValue key) \<longrightarrow>
      bucketGet (addKey result key) (namespaceOf key) (keyName key) = Some None"
    by (simp add: bucketGet_addKey valueOf_falsy)
  have 2: "lastOccurrence ns k data = Some key \<and> \<not> truthy (defaultValue key) \<longrightarrow>
      bucketGet (filterExtractionResult data) ns k = Some None"
    by (simp add: bucketGet_filterExtractionResult valueOf_falsy)
  have 3: "filterExtractionResult (dropEmptyDefaults data) = filterExtractionResult data"
    by (simp add: filterExtractionResult_allKeys allKeys_dropEmptyDefaults
        addKeys_dropEmptyDefault)
  from 1 2 3 show ?thesis by blast
qed

text \<open>
  A file with a key \<open>x\<close> and then a key \<open>e\<close> whose default value is the empty string.
\<close>

theorem empty_default_stored_as_null_witness:
  "\<not> truthy (defaultValue keyEmptyValue)
   \<and> lastOccurrence (Named ''ns'') ''e'' [(''a.ts'', \<lparr>keys = [keyX ''one'', keyEmptyValue]\<rparr>)]
       = Some keyEmptyValue
   \<and> bucketGet (addKey Map.empty keyEmptyValue) (Named ''ns'') ''e'' = Some None
   \<and> bucketGet (filterExtractionResult [(''a.ts'', \<lparr>keys = [keyX ''one'', keyEmptyValue]\<rparr>)])
         (Named ''ns'') ''e'' = Some None
   \<and> filterExtractionResult [(''a.ts'', \<lparr>keys = [keyX ''one'', keyEmptyValue]\<rparr>)] (Named ''ns'')
       = Some [(''x'', Some ''one''), (''e'', None)]"
proof -
  let ?data = "[(''a.ts'', \<lparr>keys = [keyX ''one'', keyEmptyValue]\<rparr>)]"
  have t: "\<not> truthy (defaultValue keyEmptyValue)"
    by (simp add: truthy_def keyEmptyValue_def)
  have l: "lastOccurrence (Named ''ns'') ''e'' ?data = Some keyEmptyValue"
    by (simp add: lastOccurrence_def occurrences_def allKeys_def Map_values_def
        namespaceOf_def keyX_def keyEmptyValue_def)
  have e: "namespaceOf keyEmptyValue = Named ''ns''" "keyName keyEmptyValue = ''e''"
    by (simp_all add: namespaceOf_def keyEmptyValue_def)
  have r: "filterExtractionResult ?data (Named ''ns'') = Some [(''x'', Some ''one''), (''e'', None)]"
    by (simp add: aggregation_simps keyX_def keyEmptyValue_def)
  note c = empty_default_stored_as_null
    [of keyEmptyValue Map.empty "Named ''ns''" "''e''" ?data, unfolded e]
  from c t l r show ?thesis by blast
qed

text \<open>
  C10. Every bucket present in the result of \<open>filterExtractionResult\<close> has at least one
  entry.
\<close>

theorem bucket_nonempty: "filterExtractionResult data ns = Some b \<Longrightarrow> b \<noteq> []"
  using wellFormed_filterExtractionResult [of data] by (simp add: wellFormed_def)

theorem bucket_nonempty_witness:
  "filterExtractionResult scenarioD (Named ''ns'') = Some [(''x'', Some ''two'')]
   \<and> [(''x'', Some ''two'')] \<noteq> ([] :: Bucket)"
proof -
  have h: "filterExtractionResult scenarioD (Named ''ns'') = Some [(''x'', Some ''two'')]"
    by (simp add: aggregation_simps keyX_def scenarioD_def)
  from h bucket_nonempty [OF h] show ?thesis by simp
qed

end
